theory Spec2Isabelle
  imports Complex_Main
begin

section \<open>Streamline segmentation of AFQ/segmentation.py\<close>

text \<open>
  The development embeds the ROI classifier (\<^verbatim>\<open>Segment.segment_sls\<close> and its two
  helpers), the probability-map preparation (\<^verbatim>\<open>Segment.create_prob\<close>) and the
  Mahalanobis cleaner (\<^verbatim>\<open>gaussian_weights\<close>, \<^verbatim>\<open>clean_fiber_group\<close>).

  Conventions.
  \<^item> A NumPy \<^verbatim>\<open>float64\<close> is an exact real number. Where the source can produce
    \<^verbatim>\<open>inf\<close> or \<^verbatim>\<open>nan\<close> (a square root of a negative number, a division by zero)
    the value is an \<open>npfloat\<close>, which has both.
  \<^item> Every exception of the source is a value of \<open>error\<close>; a function that can raise
    returns \<open>error + 'a\<close> with \<open>Inl\<close> the exception.
  \<^item> What the source obtains from dipy, nibabel or the registration mapping
    (resampling, sampling a volume along a streamline, warping a volume, the voxel-corner
    tolerance) is a parameter of the function that uses it.
\<close>

subsection \<open>Exceptions\<close>

datatype error = AttributeError | IndexError | ValueError | LinAlgError | UnboundLocalError

subsection \<open>Points, distances, reductions\<close>

type_synonym point = "real \<times> real \<times> real"
type_synonym streamline = "point list"
type_synonym roi_coords = "point list"

fun sqeuclidean :: "point \<Rightarrow> point \<Rightarrow> real" where
  "sqeuclidean (x1, y1, z1) (x2, y2, z2) = (x1 - x2)\<^sup>2 + (y1 - y2)\<^sup>2 + (z1 - z2)\<^sup>2"

text \<open>\<^verbatim>\<open>cdist(sl, roi, 'sqeuclidean')\<close>: one row per streamline node, one column per
  ROI coordinate.\<close>

definition cdist :: "streamline \<Rightarrow> roi_coords \<Rightarrow> real list list" where
  "cdist sl roi = map (\<lambda>p. map (sqeuclidean p) roi) sl"

text \<open>\<^verbatim>\<open>np.min\<close> of a matrix; a zero-size array has no minimum and NumPy raises
  \<^verbatim>\<open>ValueError\<close>.\<close>

definition np_min :: "real list list \<Rightarrow> error + real" where
  "np_min d = (case concat d of [] \<Rightarrow> Inl ValueError | x # xs \<Rightarrow> Inr (fold min xs x))"

fun first_index :: "'a \<Rightarrow> 'a list \<Rightarrow> nat" where
  "first_index v [] = 0"
| "first_index v (x # xs) = (if x = v then 0 else Suc (first_index v xs))"

text \<open>\<^verbatim>\<open>np.argmin\<close> and \<^verbatim>\<open>np.argmax\<close> of a vector: the first index of the extreme
  value; \<^verbatim>\<open>ValueError\<close> on an empty one.\<close>

definition np_argmin :: "real list \<Rightarrow> error + nat" where
  "np_argmin xs = (case xs of [] \<Rightarrow> Inl ValueError | x # r \<Rightarrow> Inr (first_index (fold min r x) xs))"

definition np_argmax :: "real list \<Rightarrow> error + nat" where
  "np_argmax xs = (case xs of [] \<Rightarrow> Inl ValueError | x # r \<Rightarrow> Inr (first_index (fold max r x) xs))"

text \<open>\<^verbatim>\<open>np.argmin(d, 0)[0]\<close>: the argmin down every column, then the entry of the
  first column, that is the node nearest to the first coordinate of the ROI.\<close>

definition argmin_axis0_first :: "real list list \<Rightarrow> error + nat" where
  "argmin_axis0_first d =
     (case d of
        [] \<Rightarrow> Inl ValueError
      | row # _ \<Rightarrow> (case row of [] \<Rightarrow> Inl IndexError | _ # _ \<Rightarrow> np_argmin (map hd d)))"

text \<open>Indexing a Python list: \<^verbatim>\<open>IndexError\<close> out of range.\<close>

definition getitem :: "'a list \<Rightarrow> nat \<Rightarrow> error + 'a" where
  "getitem xs i = (if i < length xs then Inr (xs ! i) else Inl IndexError)"

text \<open>A \<^verbatim>\<open>for i, x in enumerate(xs)\<close> loop whose body can raise: the first exception
  ends the loop.\<close>

fun for_enumerate :: "(nat \<Rightarrow> 'a \<Rightarrow> error + 'b) \<Rightarrow> nat \<Rightarrow> 'a list \<Rightarrow> error + 'b list" where
  "for_enumerate f i [] = Inr []"
| "for_enumerate f i (x # xs) =
     (case f i x of
        Inl e \<Rightarrow> Inl e
      | Inr y \<Rightarrow> (case for_enumerate f (Suc i) xs of Inl e \<Rightarrow> Inl e | Inr ys \<Rightarrow> Inr (y # ys)))"

subsection \<open>The inclusion and exclusion helpers\<close>

text \<open>\<^verbatim>\<open>_check_sl_with_inclusion\<close>: the loop over the inclusion ROIs, with the list
  \<open>dists\<close> (the source's \<^verbatim>\<open>dist\<close>) of distance matrices collected so far.\<close>

fun inclusion_loop :: "streamline \<Rightarrow> roi_coords list \<Rightarrow> real \<Rightarrow> real list list list
    \<Rightarrow> error + (bool \<times> real list list list)" where
  "inclusion_loop sl [] tol dists = Inr (True, dists)"
| "inclusion_loop sl (roi # rois) tol dists =
     (case np_min (cdist sl roi) of
        Inl e \<Rightarrow> Inl e
      | Inr m \<Rightarrow> if m > tol then Inr (False, [])
                 else inclusion_loop sl rois tol (dists @ [cdist sl roi]))"

definition check_sl_with_inclusion :: "streamline \<Rightarrow> roi_coords list \<Rightarrow> real
    \<Rightarrow> error + (bool \<times> real list list list)" where
  "check_sl_with_inclusion sl include_rois tol = inclusion_loop sl include_rois tol []"

text \<open>\<^verbatim>\<open>_check_sl_with_exclusion\<close>.\<close>

fun check_sl_with_exclusion :: "streamline \<Rightarrow> roi_coords list \<Rightarrow> real \<Rightarrow> error + bool" where
  "check_sl_with_exclusion sl [] tol = Inr True"
| "check_sl_with_exclusion sl (roi # rois) tol =
     (case np_min (cdist sl roi) of
        Inl e \<Rightarrow> Inl e
      | Inr m \<Rightarrow> if m < tol then Inr False else check_sl_with_exclusion sl rois tol)"

subsection \<open>The classifier: \<^verbatim>\<open>Segment.segment_sls\<close>\<close>

text \<open>What the loop reads for one bundle: the rule \<^verbatim>\<open>bundle_dict[bundle]['cross_midline']\<close>
  (\<open>None\<close>, \<open>Some True\<close> or \<open>Some False\<close>) and the coordinate sets
  \<^verbatim>\<open>self.include_rois[bundle_idx]\<close>, \<^verbatim>\<open>self.exclude_rois[bundle_idx]\<close>.\<close>

record bundle_entry =
  cross_midline :: "bool option"
  include_rois :: "roi_coords list"
  exclude_rois :: "roi_coords list"

text \<open>The crossing check of lines 460 to 472. \<open>crosses\<close> is \<^verbatim>\<open>self.crosses\<close>: \<open>None\<close>
  when \<^verbatim>\<open>split_sls\<close> never ran, so that the attribute does not exist and reading it
  raises \<^verbatim>\<open>AttributeError\<close>, which \<^verbatim>\<open>except NameError\<close> does not catch. The result is
  \<open>False\<close> where the source says \<^verbatim>\<open>continue\<close>.\<close>

definition crossing_gate :: "bool list option \<Rightarrow> bool option \<Rightarrow> nat \<Rightarrow> error + bool" where
  "crossing_gate crosses crosses_midline sl_idx =
     (case crosses_midline of
        None \<Rightarrow> Inr True
      | Some rule \<Rightarrow>
          (case crosses of
             None \<Rightarrow> Inl AttributeError
           | Some cs \<Rightarrow>
               if sl_idx < length cs then
                 (if cs ! sl_idx then (if rule then Inr True else Inr False) else Inr True)
               else Inl IndexError))"

text \<open>The body of the inner loop for one streamline and one bundle. \<open>p\<close> is
  \<^verbatim>\<open>fiber_probabilities[sl_idx]\<close>. The result is \<open>None\<close> when the body writes nothing
  (the streamline is rejected for the bundle) and \<open>Some (min0, min1)\<close> when it writes the
  two closest-approach node indices and the score \<open>p\<close>.\<close>

definition segment_pair :: "bool list option \<Rightarrow> real \<Rightarrow> real \<Rightarrow> bundle_entry \<Rightarrow> real \<Rightarrow> nat
    \<Rightarrow> streamline \<Rightarrow> error + (nat \<times> nat) option" where
  "segment_pair crosses tol prob_threshold b p sl_idx sl =
     (if p > prob_threshold then
        (case crossing_gate crosses (cross_midline b) sl_idx of
           Inl e \<Rightarrow> Inl e
         | Inr go \<Rightarrow>
             if \<not> go then Inr None
             else
               (case check_sl_with_inclusion sl (include_rois b) tol of
                  Inl e \<Rightarrow> Inl e
                | Inr (is_close, dists) \<Rightarrow>
                    if is_close then
                      (case check_sl_with_exclusion sl (exclude_rois b) tol of
                         Inl e \<Rightarrow> Inl e
                       | Inr is_far \<Rightarrow>
                           if is_far then
                             (case getitem dists 0 of
                                Inl e \<Rightarrow> Inl e
                              | Inr d0 \<Rightarrow>
                                  (case argmin_axis0_first d0 of
                                     Inl e \<Rightarrow> Inl e
                                   | Inr m0 \<Rightarrow>
                                       (case getitem dists 1 of
                                          Inl e \<Rightarrow> Inl e
                                        | Inr d1 \<Rightarrow>
                                            (case argmin_axis0_first d1 of
                                               Inl e \<Rightarrow> Inl e
                                             | Inr m1 \<Rightarrow> Inr (Some (m0, m1))))))
                           else Inr None)
                    else Inr None))
      else Inr None)"

text \<open>One cell of the two tables: \<^verbatim>\<open>streamlines_in_bundles[sl_idx, bundle_idx]\<close> and
  \<^verbatim>\<open>min_dist_coords[sl_idx, bundle_idx, 0:2]\<close>. Both tables start as zeros.\<close>

type_synonym cell = "real \<times> nat \<times> nat"

definition cell_of :: "real \<Rightarrow> (nat \<times> nat) option \<Rightarrow> cell" where
  "cell_of p r = (case r of None \<Rightarrow> (0, 0, 0) | Some (m0, m1) \<Rightarrow> (p, m0, m1))"

definition score :: "cell \<Rightarrow> real" where
  "score c = fst c"

text \<open>The two nested loops of lines 452 to 485, bundles outside and streamlines inside.
  \<open>fiber_probabilities bundle_idx sl_idx\<close> is the mean of the bundle's warped
  probability map along the resampled streamline, which dipy computes. The result has one
  column of cells per bundle.\<close>

definition segment_table :: "bool list option \<Rightarrow> real \<Rightarrow> real \<Rightarrow> (nat \<Rightarrow> nat \<Rightarrow> real)
    \<Rightarrow> bundle_entry list \<Rightarrow> streamline list \<Rightarrow> error + cell list list" where
  "segment_table crosses tol prob_threshold fiber_probabilities bundle_dict streamlines =
     for_enumerate
       (\<lambda>bundle_idx b.
          for_enumerate
            (\<lambda>sl_idx sl.
               case segment_pair crosses tol prob_threshold b
                      (fiber_probabilities bundle_idx sl_idx) sl_idx sl of
                 Inl e \<Rightarrow> Inl e
               | Inr r \<Rightarrow> Inr (cell_of (fiber_probabilities bundle_idx sl_idx) r))
            0 streamlines)
       0 bundle_dict"

text \<open>Lines 489 to 493: the rows of the tables, the filter \<^verbatim>\<open>possible_fibers\<close> and
  \<^verbatim>\<open>bundle_choice\<close>. A row is a streamline with its cells, one per bundle.\<close>

definition table_rows :: "streamline list \<Rightarrow> cell list list \<Rightarrow> (streamline \<times> cell list) list" where
  "table_rows streamlines cols =
     map (\<lambda>i. (streamlines ! i, map (\<lambda>col. col ! i) cols)) [0..<length streamlines]"

definition possible_fibers :: "streamline \<times> cell list \<Rightarrow> bool" where
  "possible_fibers r = (sum_list (map score (snd r)) > 0)"

definition bundle_choice :: "streamline \<times> cell list \<Rightarrow> nat" where
  "bundle_choice r = (case np_argmax (map score (snd r)) of Inl e \<Rightarrow> 0 | Inr k \<Rightarrow> k)"

text \<open>Lines 499 to 517 for one bundle: select the rows that chose it and reverse every
  streamline whose stored index for ROI 0 exceeds the one for ROI 1.\<close>

definition orient :: "nat \<Rightarrow> streamline \<times> cell list \<Rightarrow> streamline" where
  "orient bundle_idx r =
     (case snd r ! bundle_idx of (s, min0, min1) \<Rightarrow> if min0 > min1 then rev (fst r) else fst r)"

definition fiber_group :: "(streamline \<times> cell list) list \<Rightarrow> nat \<Rightarrow> streamline list" where
  "fiber_group rows bundle_idx =
     map (orient bundle_idx) (filter (\<lambda>r. bundle_choice r = bundle_idx) rows)"

text \<open>The whole of \<^verbatim>\<open>segment_sls\<close>: the fiber groups in the order of the bundles.
  With no bundle at all \<^verbatim>\<open>np.argmax\<close> runs along an axis of length zero and raises
  \<^verbatim>\<open>ValueError\<close>; \<open>bundle_choice\<close> is only used on rows with a cell.\<close>

definition segment_sls :: "bool list option \<Rightarrow> real \<Rightarrow> real \<Rightarrow> (nat \<Rightarrow> nat \<Rightarrow> real)
    \<Rightarrow> bundle_entry list \<Rightarrow> streamline list \<Rightarrow> error + streamline list list" where
  "segment_sls crosses tol prob_threshold fiber_probabilities bundle_dict streamlines =
     (case segment_table crosses tol prob_threshold fiber_probabilities bundle_dict streamlines of
        Inl e \<Rightarrow> Inl e
      | Inr cols \<Rightarrow>
          if bundle_dict = [] then Inl ValueError
          else Inr (map (fiber_group (filter possible_fibers (table_rows streamlines cols)))
                      [0..<length bundle_dict]))"

subsection \<open>Probability maps: \<^verbatim>\<open>Segment.create_prob\<close>\<close>

text \<open>A NumPy array, as far as \<^verbatim>\<open>create_prob\<close> looks at it: its shape and its
  entries in storage order.\<close>

datatype ndarray = Ndarray (shape: "nat list") (flat: "real list")

definition np_ones :: "nat list \<Rightarrow> ndarray" where
  "np_ones s = Ndarray s (replicate (prod_list s) 1)"

text \<open>One entry of \<^verbatim>\<open>bundle_dict\<close> as \<^verbatim>\<open>create_prob\<close> reads it: the keys
  \<^verbatim>\<open>'ROIs'\<close>, \<^verbatim>\<open>'rules'\<close> and the optional \<^verbatim>\<open>'prob_map'\<close>. Images are taken
  after \<^verbatim>\<open>get_fdata()\<close>, as arrays.\<close>

record bundle_spec =
  ROIs :: "ndarray list"
  rules :: "bool list"
  prob_map :: "ndarray option"

text \<open>The loop over the rules (lines 354 to 368). Its state is the local variable
  \<^verbatim>\<open>roi\<close> (\<open>None\<close> while it is unbound) and the two lists being built. \<open>warp_roi\<close>
  stands for the inverse warp, the threshold, \<^verbatim>\<open>patch_up_roi\<close> and
  \<^verbatim>\<open>np.where\<close>: all outside the repository.\<close>

fun rules_loop :: "(ndarray \<Rightarrow> roi_coords) \<Rightarrow> ndarray list \<Rightarrow> nat \<Rightarrow> bool list
    \<Rightarrow> ndarray option \<times> roi_coords list \<times> roi_coords list
    \<Rightarrow> error + (ndarray option \<times> roi_coords list \<times> roi_coords list)" where
  "rules_loop warp_roi rois rule_idx [] st = Inr st"
| "rules_loop warp_roi rois rule_idx (rule # rest) (roi, inc, exc) =
     (case getitem rois rule_idx of
        Inl e \<Rightarrow> Inl e
      | Inr r \<Rightarrow>
          rules_loop warp_roi rois (Suc rule_idx) rest
            (Some r, if rule then inc @ [warp_roi r] else inc,
                     if rule then exc else exc @ [warp_roi r]))"

text \<open>The body of the loop over the bundles. \<^verbatim>\<open>np.ones(roi.shape)\<close> is the default
  argument of \<^verbatim>\<open>dict.get\<close> and is evaluated whether the key is there or not, with
  whatever \<^verbatim>\<open>roi\<close> holds after the loop over the rules. \<open>warp_prob\<close> stands for
  \<^verbatim>\<open>mapping.transform_inverse(..., interpolation='nearest')\<close>.\<close>

definition create_prob_bundle :: "(ndarray \<Rightarrow> roi_coords) \<Rightarrow> (ndarray \<Rightarrow> ndarray)
    \<Rightarrow> ndarray option \<Rightarrow> bundle_spec
    \<Rightarrow> error + (ndarray option \<times> roi_coords list \<times> roi_coords list \<times> ndarray)" where
  "create_prob_bundle warp_roi warp_prob roi b =
     (case rules_loop warp_roi (ROIs b) 0 (rules b) (roi, [], []) of
        Inl e \<Rightarrow> Inl e
      | Inr (roi', inc, exc) \<Rightarrow>
          (case roi' of
             None \<Rightarrow> Inl UnboundLocalError
           | Some r \<Rightarrow>
               Inr (roi', inc, exc,
                    warp_prob (case prob_map b of None \<Rightarrow> np_ones (shape r) | Some m \<Rightarrow> m))))"

fun create_prob_loop :: "(ndarray \<Rightarrow> roi_coords) \<Rightarrow> (ndarray \<Rightarrow> ndarray) \<Rightarrow> ndarray option
    \<Rightarrow> bundle_spec list \<Rightarrow> error + (roi_coords list \<times> roi_coords list \<times> ndarray) list" where
  "create_prob_loop warp_roi warp_prob roi [] = Inr []"
| "create_prob_loop warp_roi warp_prob roi (b # bs) =
     (case create_prob_bundle warp_roi warp_prob roi b of
        Inl e \<Rightarrow> Inl e
      | Inr (roi', inc, exc, wpm) \<Rightarrow>
          (case create_prob_loop warp_roi warp_prob roi' bs of
             Inl e \<Rightarrow> Inl e
           | Inr rest \<Rightarrow> Inr ((inc, exc, wpm) # rest)))"

text \<open>\<^verbatim>\<open>create_prob\<close>: for every bundle, in order, \<^verbatim>\<open>self.include_rois[bundle_idx]\<close>,
  \<^verbatim>\<open>self.exclude_rois[bundle_idx]\<close> and \<^verbatim>\<open>self.warped_prob_map[bundle_idx]\<close>.\<close>

definition create_prob :: "(ndarray \<Rightarrow> roi_coords) \<Rightarrow> (ndarray \<Rightarrow> ndarray) \<Rightarrow> bundle_spec list
    \<Rightarrow> error + (roi_coords list \<times> roi_coords list \<times> ndarray) list" where
  "create_prob warp_roi warp_prob bundle_dict = create_prob_loop warp_roi warp_prob None bundle_dict"

definition warped_prob_map :: "roi_coords list \<times> roi_coords list \<times> ndarray \<Rightarrow> ndarray" where
  "warped_prob_map r = snd (snd r)"

subsection \<open>Mahalanobis distances and weights: \<^verbatim>\<open>gaussian_weights\<close>\<close>

text \<open>A float that may be infinite or not a number. Every finite value this function
  produces is non-negative, so one infinity is enough.\<close>

datatype npfloat = Fin real | PInf | NaN

definition mean :: "real list \<Rightarrow> real" where
  "mean xs = sum_list xs / real (length xs)"

definition median :: "real list \<Rightarrow> real" where
  "median xs =
     (let s = sort xs; n = length xs
      in if even n then (s ! (n div 2 - 1) + s ! (n div 2)) / 2 else s ! (n div 2))"

text \<open>\<^verbatim>\<open>np.mean(node_coords, 0)\<close> and \<^verbatim>\<open>np.median(node_coords, 0)\<close>: the two
  statistics the docstring names for the parameter \<^verbatim>\<open>stat\<close>.\<close>

definition np_mean :: "point list \<Rightarrow> point" where
  "np_mean ps = (mean (map fst ps), mean (map (\<lambda>p. fst (snd p)) ps), mean (map (\<lambda>p. snd (snd p)) ps))"

definition np_median :: "point list \<Rightarrow> point" where
  "np_median ps =
     (median (map fst ps), median (map (\<lambda>p. fst (snd p)) ps), median (map (\<lambda>p. snd (snd p)) ps))"

text \<open>An entry of \<^verbatim>\<open>np.cov(node_coords.T, ddof=0)\<close>.\<close>

definition cov :: "real list \<Rightarrow> real list \<Rightarrow> real" where
  "cov xs ys = sum_list (map2 (\<lambda>x y. (x - mean xs) * (y - mean ys)) xs ys) / real (length xs)"

type_synonym mat3 = "(real \<times> real \<times> real) \<times> (real \<times> real \<times> real) \<times> (real \<times> real \<times> real)"

text \<open>Lines 111 to 114: the covariance of the node across streamlines, with the lower
  triangle set to zero.\<close>

definition node_cov :: "point list \<Rightarrow> mat3" where
  "node_cov node_coords =
     (let xs = map fst node_coords;
          ys = map (\<lambda>p. fst (snd p)) node_coords;
          zs = map (\<lambda>p. snd (snd p)) node_coords
      in ((cov xs xs, cov xs ys, cov xs zs),
          (0, cov ys ys, cov ys zs),
          (0, 0, cov zs zs)))"

fun det3 :: "mat3 \<Rightarrow> real" where
  "det3 ((a, b, c), (d, e, f), (g, h, i)) =
     a * (e * i - f * h) - b * (d * i - f * g) + c * (d * h - e * g)"

text \<open>\<^verbatim>\<open>np.linalg.inv\<close> of a 3 by 3 matrix: \<^verbatim>\<open>LinAlgError\<close> for a singular one.\<close>

fun linalg_inv :: "mat3 \<Rightarrow> error + mat3" where
  "linalg_inv ((a, b, c), (d, e, f), (g, h, i)) =
     (let dt = det3 ((a, b, c), (d, e, f), (g, h, i))
      in if dt = 0 then Inl LinAlgError
         else Inr (((e * i - f * h) / dt, (c * h - b * i) / dt, (b * f - c * e) / dt),
                   ((f * g - d * i) / dt, (a * i - c * g) / dt, (c * d - a * f) / dt),
                   ((d * h - e * g) / dt, (b * g - a * h) / dt, (a * e - b * d) / dt)))"

text \<open>The product of two such matrices, to state that \<open>linalg_inv\<close> inverts.\<close>

fun mat3_mul :: "mat3 \<Rightarrow> mat3 \<Rightarrow> mat3" where
  "mat3_mul ((a, b, c), (d, e, f), (g, h, i)) ((a', b', c'), (d', e', f'), (g', h', i')) =
     ((a * a' + b * d' + c * g', a * b' + b * e' + c * h', a * c' + b * f' + c * i'),
      (d * a' + e * d' + f * g', d * b' + e * e' + f * h', d * c' + e * f' + f * i'),
      (g * a' + h * d' + i * g', g * b' + h * e' + i * h', g * c' + h * f' + i * i'))"

text \<open>\<^verbatim>\<open>scipy.spatial.distance.mahalanobis(u, v, VI)\<close>: the square root of
  \<open>(u - v) VI (u - v)\<close>, not a number when that product is negative.\<close>

fun mahalanobis :: "point \<Rightarrow> point \<Rightarrow> mat3 \<Rightarrow> npfloat" where
  "mahalanobis (u1, u2, u3) (v1, v2, v3) ((a, b, c), (d, e, f), (g, h, i)) =
     (let d1 = u1 - v1; d2 = u2 - v2; d3 = u3 - v3;
          m = (d1 * a + d2 * d + d3 * g) * d1 + (d1 * b + d2 * e + d3 * h) * d2
              + (d1 * c + d2 * f + d3 * i) * d3
      in if m < 0 then NaN else Fin (sqrt m))"

text \<open>The body of the loop over the nodes (lines 110 to 121): the distances of all
  streamlines at one node. The inverse is taken inside the loop over the streamlines, as in
  the source, so that no streamline means no inversion.\<close>

definition node_distances :: "(point list \<Rightarrow> point) \<Rightarrow> point list \<Rightarrow> error + npfloat list" where
  "node_distances stat node_coords =
     for_enumerate
       (\<lambda>fn x. case linalg_inv (node_cov node_coords) of
                  Inl e \<Rightarrow> Inl e
                | Inr VI \<Rightarrow> Inr (mahalanobis x (stat node_coords) VI))
       0 node_coords"

text \<open>Arithmetic and comparisons of NumPy on such floats.\<close>

fun np_reciprocal :: "npfloat \<Rightarrow> npfloat" where
  "np_reciprocal (Fin x) = (if x = 0 then PInf else Fin (1 / x))"
| "np_reciprocal PInf = Fin 0"
| "np_reciprocal NaN = NaN"

fun np_add :: "npfloat \<Rightarrow> npfloat \<Rightarrow> npfloat" where
  "np_add (Fin x) (Fin y) = Fin (x + y)"
| "np_add (Fin x) PInf = PInf"
| "np_add PInf (Fin y) = PInf"
| "np_add PInf PInf = PInf"
| "np_add NaN _ = NaN"
| "np_add _ NaN = NaN"

fun np_divide :: "npfloat \<Rightarrow> npfloat \<Rightarrow> npfloat" where
  "np_divide (Fin x) (Fin y) = (if y = 0 then (if x = 0 then NaN else PInf) else Fin (x / y))"
| "np_divide (Fin x) PInf = Fin 0"
| "np_divide PInf (Fin y) = PInf"
| "np_divide PInf PInf = NaN"
| "np_divide NaN _ = NaN"
| "np_divide _ NaN = NaN"

definition np_sum :: "npfloat list \<Rightarrow> npfloat" where
  "np_sum xs = fold (\<lambda>x acc. np_add acc x) xs (Fin 0)"

fun np_greater :: "npfloat \<Rightarrow> real \<Rightarrow> bool" where
  "np_greater (Fin x) t = (x > t)"
| "np_greater PInf t = True"
| "np_greater NaN t = False"

fun np_less :: "npfloat \<Rightarrow> real \<Rightarrow> bool" where
  "np_less (Fin x) t = (x < t)"
| "np_less PInf t = False"
| "np_less NaN t = False"

text \<open>The result of \<^verbatim>\<open>gaussian_weights\<close>: a vector of one entry for a bundle of one
  streamline, a matrix with one row per streamline otherwise.\<close>

datatype weights = W1 "npfloat list" | W2 "npfloat list list"

text \<open>\<^verbatim>\<open>bundle.shape[1]\<close> of a resampled bundle (an array of shape
  \<open>(n, n_points, 3)\<close>, here the list of its rows). For an array without rows the loop
  over the nodes changes nothing, whatever its length.\<close>

definition n_nodes :: "point list list \<Rightarrow> nat" where
  "n_nodes bndl = (case bndl of [] \<Rightarrow> 0 | sl # _ \<Rightarrow> length sl)"

definition column :: "'a list list \<Rightarrow> nat \<Rightarrow> 'a list" where
  "column rows k = map (\<lambda>row. row ! k) rows"

text \<open>\<^verbatim>\<open>gaussian_weights\<close> on a resampled bundle (the branch
  \<^verbatim>\<open>isinstance(bundle, np.ndarray)\<close>; a list is resampled by dipy first and then
  treated the same).\<close>

definition gaussian_weights :: "point list list \<Rightarrow> bool \<Rightarrow> (point list \<Rightarrow> point) \<Rightarrow> error + weights" where
  "gaussian_weights bndl return_mahalnobis stat =
     (if length bndl = 1 then
        (if return_mahalnobis then Inr (W1 [NaN]) else Inr (W1 [Fin 1]))
      else
        (case for_enumerate (\<lambda>_ node. node_distances stat (column bndl node)) 0 [0..<n_nodes bndl] of
           Inl e \<Rightarrow> Inl e
         | Inr cols \<Rightarrow>
             (let w = map (column cols) [0..<length bndl]
              in if return_mahalnobis then Inr (W2 w)
                 else
                   (let w1 = map (map np_reciprocal) w;
                        col_sums = map (\<lambda>node. np_sum (column w1 node)) [0..<n_nodes bndl]
                    in Inr (W2 (map (\<lambda>row. map2 np_divide row col_sums) w1))))))"

text \<open>A distance or weight that is finite and positive.\<close>

fun positive_finite :: "npfloat \<Rightarrow> bool" where
  "positive_finite (Fin r) = (r > 0)"
| "positive_finite PInf = False"
| "positive_finite NaN = False"

text \<open>The value of a finite float.\<close>

fun fin_value :: "npfloat \<Rightarrow> real" where
  "fin_value (Fin r) = r"
| "fin_value PInf = 0"
| "fin_value NaN = 0"

subsection \<open>The cleaner: \<^verbatim>\<open>clean_fiber_group\<close>\<close>

text \<open>\<^verbatim>\<open>np.any(w > clean_threshold)\<close> and the rows selected by
  \<^verbatim>\<open>np.where(np.all(w < clean_threshold, axis=-1))[0]\<close>.\<close>

fun any_greater :: "weights \<Rightarrow> real \<Rightarrow> bool" where
  "any_greater (W1 v) t = (\<exists>x\<in>set v. np_greater x t)"
| "any_greater (W2 m) t = (\<exists>row\<in>set m. \<exists>x\<in>set row. np_greater x t)"

fun idx_belong :: "weights \<Rightarrow> real \<Rightarrow> nat list" where
  "idx_belong (W1 v) t = (if \<forall>x\<in>set v. np_less x t then [0] else [])"
| "idx_belong (W2 m) t = filter (\<lambda>i. \<forall>x\<in>set (m ! i). np_less x t) [0..<length m]"

text \<open>Fancy indexing \<^verbatim>\<open>a[idx]\<close> with an index array: \<^verbatim>\<open>IndexError\<close> when an index
  is out of range.\<close>

definition take_idx :: "'a list \<Rightarrow> nat list \<Rightarrow> error + 'a list" where
  "take_idx xs idx = (if \<forall>i\<in>set idx. i < length xs then Inr (map (\<lambda>i. xs ! i) idx) else Inl IndexError)"

text \<open>The state of the while loop: \<^verbatim>\<open>idx\<close>, \<^verbatim>\<open>fgarray\<close>, \<^verbatim>\<open>w\<close> and
  \<^verbatim>\<open>rounds_elapsed\<close>.\<close>

record clean_state =
  idx :: "nat list"
  fgarray :: "point list list"
  w :: weights
  rounds_elapsed :: nat

text \<open>The loop of lines 567 to 579. \<open>n_streamlines\<close> is \<^verbatim>\<open>len(streamlines)\<close>, the
  length of the argument of \<^verbatim>\<open>clean_fiber_group\<close>, which the loop never reassigns. The
  call of \<^verbatim>\<open>gaussian_weights\<close> inside the loop passes no \<^verbatim>\<open>stat\<close>, so the default
  \<^verbatim>\<open>np.mean\<close> applies.\<close>

function clean_loop :: "nat \<Rightarrow> nat \<Rightarrow> real \<Rightarrow> nat \<Rightarrow> clean_state \<Rightarrow> error + clean_state" where
  "clean_loop n_streamlines clean_rounds clean_threshold min_sl st =
     (if any_greater (w st) clean_threshold \<and> rounds_elapsed st < clean_rounds
         \<and> n_streamlines > min_sl then
        (case take_idx (idx st) (idx_belong (w st) clean_threshold) of
           Inl e \<Rightarrow> Inl e
         | Inr idx' \<Rightarrow>
             (case take_idx (fgarray st) (idx_belong (w st) clean_threshold) of
                Inl e \<Rightarrow> Inl e
              | Inr fgarray' \<Rightarrow>
                  (case gaussian_weights fgarray' True np_mean of
                     Inl e \<Rightarrow> Inl e
                   | Inr w' \<Rightarrow>
                       clean_loop n_streamlines clean_rounds clean_threshold min_sl
                         \<lparr>idx = idx', fgarray = fgarray', w = w',
                          rounds_elapsed = rounds_elapsed st + 1\<rparr>)))
      else Inr st)"
  by pat_completeness auto
termination
  by (relation "measure (\<lambda>(n, clean_rounds, t, m, st). clean_rounds - rounds_elapsed st)") auto

text \<open>\<^verbatim>\<open>clean_fiber_group\<close>. \<open>resample\<close> stands for dipy's
  \<^verbatim>\<open>set_number_of_points\<close>.\<close>

definition clean_fiber_group :: "(streamline list \<Rightarrow> nat \<Rightarrow> point list list) \<Rightarrow> streamline list
    \<Rightarrow> nat \<Rightarrow> nat \<Rightarrow> real \<Rightarrow> nat \<Rightarrow> (point list \<Rightarrow> point) \<Rightarrow> error + streamline list" where
  "clean_fiber_group resample streamlines n_points clean_rounds clean_threshold min_sl stat =
     (if length streamlines < min_sl then Inr streamlines
      else
        (let fgarray0 = resample streamlines n_points
         in case gaussian_weights fgarray0 True stat of
              Inl e \<Rightarrow> Inl e
            | Inr w0 \<Rightarrow>
                (case clean_loop (length streamlines) clean_rounds clean_threshold min_sl
                        \<lparr>idx = [0..<length fgarray0], fgarray = fgarray0, w = w0,
                         rounds_elapsed = 0\<rparr> of
                   Inl e \<Rightarrow> Inl e
                 | Inr st \<Rightarrow> take_idx streamlines (idx st))))"

subsection \<open>Closest-approach node indices\<close>




subsection \<open>The pair that raises first\<close>


subsection \<open>The cleaner as the specification words it\<close>

text \<open>The specification has every round recompute the distances with the caller's
  statistic. \<open>clean_loop_spec\<close> and \<open>clean_fiber_group_spec\<close> follow these words:
  they are the two definitions above with \<open>stat\<close> passed to \<^verbatim>\<open>gaussian_weights\<close>
  inside the loop. They are not translated from the source and only serve the comparison
  with it.\<close>

function clean_loop_spec :: "(point list \<Rightarrow> point) \<Rightarrow> nat \<Rightarrow> nat \<Rightarrow> real \<Rightarrow> nat \<Rightarrow> clean_state
    \<Rightarrow> error + clean_state" where
  "clean_loop_spec stat n_streamlines clean_rounds clean_threshold min_sl st =
     (if any_greater (w st) clean_threshold \<and> rounds_elapsed st < clean_rounds
         \<and> n_streamlines > min_sl then
        (case take_idx (idx st) (idx_belong (w st) clean_threshold) of
           Inl e \<Rightarrow> Inl e
         | Inr idx' \<Rightarrow>
             (case take_idx (fgarray st) (idx_belong (w st) clean_threshold) of
                Inl e \<Rightarrow> Inl e
              | Inr fgarray' \<Rightarrow>
                  (case gaussian_weights fgarray' True stat of
                     Inl e \<Rightarrow> Inl e
                   | Inr w' \<Rightarrow>
                       clean_loop_spec stat n_streamlines clean_rounds clean_threshold min_sl
                         \<lparr>idx = idx', fgarray = fgarray', w = w',
                          rounds_elapsed = rounds_elapsed st + 1\<rparr>)))
      else Inr st)"
  by pat_completeness auto
termination
  by (relation "measure (\<lambda>(s, n, clean_rounds, t, m, st). clean_rounds - rounds_elapsed st)") auto

definition clean_fiber_group_spec :: "(streamline list \<Rightarrow> nat \<Rightarrow> point list list) \<Rightarrow> streamline list
    \<Rightarrow> nat \<Rightarrow> nat \<Rightarrow> real \<Rightarrow> nat \<Rightarrow> (point list \<Rightarrow> point) \<Rightarrow> error + streamline list" where
  "clean_fiber_group_spec resample streamlines n_points clean_rounds clean_threshold min_sl stat =
     (if length streamlines < min_sl then Inr streamlines
      else
        (let fgarray0 = resample streamlines n_points
         in case gaussian_weights fgarray0 True stat of
              Inl e \<Rightarrow> Inl e
            | Inr w0 \<Rightarrow>
                (case clean_loop_spec stat (length streamlines) clean_rounds clean_threshold min_sl
                        \<lparr>idx = [0..<length fgarray0], fgarray = fgarray0, w = w0,
                         rounds_elapsed = 0\<rparr> of
                   Inl e \<Rightarrow> Inl e
                 | Inr st \<Rightarrow> take_idx streamlines (idx st))))"

subsection \<open>Inputs of the examples\<close>

text \<open>A bundle with the given crossing rule and inclusion ROIs and no exclusion ROI.\<close>

definition example_bundle :: "bool option \<Rightarrow> roi_coords list \<Rightarrow> bundle_entry" where
  [simp]: "example_bundle rule rois =
     \<lparr>cross_midline = rule, include_rois = rois, exclude_rois = []\<rparr>"

text \<open>A bundle specification without a probability map whose ROIs are arrays of the given
  shapes.\<close>

definition example_spec :: "nat list list \<Rightarrow> bool list \<Rightarrow> bundle_spec" where
  [simp]: "example_spec shapes rs = \<lparr>ROIs = map np_ones shapes, rules = rs, prob_map = None\<rparr>"

text \<open>The straight streamline of two points from \<open>(a, a, a)\<close> to
  \<open>(a + 1, a + 1, a + 1)\<close>. Resampling it to two points returns it.\<close>

definition diagonal :: "real \<Rightarrow> streamline" where
  [simp]: "diagonal a = [(a, a, a), (a + 1, a + 1, a + 1)]"

section \<open>Properties\<close>

lemmas pair_eval = segment_pair_def crossing_gate_def check_sl_with_inclusion_def cdist_def
  np_min_def getitem_def argmin_axis0_first_def np_argmin_def

lemmas segment_eval = pair_eval np_argmax_def cell_of_def score_def segment_table_def
  table_rows_def possible_fibers_def bundle_choice_def orient_def fiber_group_def segment_sls_def

lemmas gw_eval = gaussian_weights_def node_distances_def node_cov_def cov_def mean_def median_def
  np_mean_def np_median_def column_def n_nodes_def np_sum_def

lemmas clean_eval = gw_eval take_idx_def clean_fiber_group_def clean_fiber_group_spec_def

subsection \<open>Loops and tables\<close>

lemma for_enumerate_Inr:
  "for_enumerate f k xs = Inr ys \<Longrightarrow>
     length ys = length xs \<and> (\<forall>i<length xs. f (k + i) (xs ! i) = Inr (ys ! i))"
proof (induction xs arbitrary: k ys)
  case Nil
  then show ?case by simp
next
  case (Cons x xs)
  from Cons.prems obtain y ys' where fx: "f k x = Inr y"
    and rest: "for_enumerate f (Suc k) xs = Inr ys'" and ys: "ys = y # ys'"
    by (auto split: sum.splits)
  from Cons.IH [OF rest] have len: "length ys' = length xs"
    and each: "\<forall>i<length xs. f (Suc k + i) (xs ! i) = Inr (ys' ! i)" by auto
  show ?case
  proof (intro conjI allI impI)
    show "length ys = length (x # xs)" using len ys by simp
  next
    fix i assume "i < length (x # xs)"
    then show "f (k + i) ((x # xs) ! i) = Inr (ys ! i)"
      using fx each ys by (cases i) auto
  qed
qed

lemma for_enumerate_Inl:
  "for_enumerate f k xs = Inl e \<Longrightarrow>
     \<exists>i<length xs. f (k + i) (xs ! i) = Inl e \<and> (\<forall>j<i. \<exists>y. f (k + j) (xs ! j) = Inr y)"
proof (induction xs arbitrary: k)
  case Nil
  then show ?case by simp
next
  case (Cons x xs)
  show ?case
  proof (cases "f k x")
    case (Inl e')
    with Cons.prems have "e' = e" by simp
    with Inl have "f (k + 0) ((x # xs) ! 0) = Inl e" by simp
    then show ?thesis by (intro exI [of _ 0]) simp
  next
    case (Inr y)
    with Cons.prems have "for_enumerate f (Suc k) xs = Inl e"
      by (auto split: sum.splits)
    from Cons.IH [OF this] obtain i where i: "i < length xs"
      and fi: "f (Suc k + i) (xs ! i) = Inl e"
      and before: "\<forall>j<i. \<exists>y. f (Suc k + j) (xs ! j) = Inr y" by blast
    have "\<forall>j<Suc i. \<exists>y. f (k + j) ((x # xs) ! j) = Inr y"
    proof (intro allI impI)
      fix j assume "j < Suc i"
      then show "\<exists>y. f (k + j) ((x # xs) ! j) = Inr y"
        using Inr before by (cases j) auto
    qed
    with i fi show ?thesis by (intro exI [of _ "Suc i"]) simp
  qed
qed



lemma for_enumerate_Inr0:
  "for_enumerate f 0 xs = Inr ys \<Longrightarrow>
     length ys = length xs \<and> (\<forall>i<length xs. f i (xs ! i) = Inr (ys ! i))"
  using for_enumerate_Inr [of f 0 xs ys] by simp

lemma segment_table_cells:
  assumes "segment_table crosses tol thr fp bundle_dict streamlines = Inr cols"
  shows "length cols = length bundle_dict"
    and "bi < length bundle_dict \<Longrightarrow> length (cols ! bi) = length streamlines"
    and "bi < length bundle_dict \<Longrightarrow> si < length streamlines \<Longrightarrow>
           \<exists>r. segment_pair crosses tol thr (bundle_dict ! bi) (fp bi si) si (streamlines ! si) = Inr r
               \<and> cols ! bi ! si = cell_of (fp bi si) r"
proof -
  note outer = for_enumerate_Inr0 [OF assms [unfolded segment_table_def]]
  from outer show "length cols = length bundle_dict" by simp
  {
    assume bi: "bi < length bundle_dict"
    with outer have inner: "for_enumerate
            (\<lambda>sl_idx sl.
               case segment_pair crosses tol thr (bundle_dict ! bi) (fp bi sl_idx) sl_idx sl of
                 Inl e \<Rightarrow> Inl e
               | Inr r \<Rightarrow> Inr (cell_of (fp bi sl_idx) r))
            0 streamlines = Inr (cols ! bi)" by simp
    note each = for_enumerate_Inr0 [OF inner]
    from each show "length (cols ! bi) = length streamlines" by simp
    assume "si < length streamlines"
    with each have "(case segment_pair crosses tol thr (bundle_dict ! bi) (fp bi si) si (streamlines ! si) of
                 Inl e \<Rightarrow> Inl e
               | Inr r \<Rightarrow> Inr (cell_of (fp bi si) r)) = Inr (cols ! bi ! si)" by simp
    then show "\<exists>r. segment_pair crosses tol thr (bundle_dict ! bi) (fp bi si) si (streamlines ! si) = Inr r
               \<and> cols ! bi ! si = cell_of (fp bi si) r"
      by (auto split: sum.splits)
  }
qed

lemma first_index_in:
  "v \<in> set xs \<Longrightarrow> first_index v xs < length xs \<and> xs ! first_index v xs = v"
  by (induction xs) auto

lemma np_argmax_Max:
  assumes "xs \<noteq> []"
  shows "\<exists>k. np_argmax xs = Inr k \<and> k < length xs \<and> xs ! k = Max (set xs)"
proof -
  from assms obtain x r where xs: "xs = x # r" by (cases xs) auto
  have m: "fold max r x = Max (set xs)" unfolding xs by (rule Max.set_eq_fold [symmetric])
  have "Max (set xs) \<in> set xs" using assms by (intro Max_in) auto
  from first_index_in [OF this]
  have k: "first_index (Max (set xs)) xs < length xs" "xs ! first_index (Max (set xs)) xs = Max (set xs)"
    by auto
  have "np_argmax xs = Inr (first_index (fold max r x) xs)"
    unfolding xs np_argmax_def by (simp del: first_index.simps)
  then have "np_argmax xs = Inr (first_index (Max (set xs)) xs)" by (simp only: m)
  with k show ?thesis by blast
qed

lemma sum_list_pos_has_pos:
  fixes xs :: "real list"
  assumes "sum_list xs > 0"
  shows "\<exists>x\<in>set xs. x > 0"
proof (rule ccontr)
  assume "\<not> (\<exists>x\<in>set xs. x > 0)"
  then have "\<forall>x\<in>set xs. x \<le> 0" by auto
  then have "sum_list xs \<le> 0" by (intro sum_list_nonpos) auto
  with assms show False by simp
qed

lemma chosen_score_positive:
  assumes "possible_fibers r"
  shows "bundle_choice r < length (snd r) \<and> score (snd r ! bundle_choice r) > 0"
proof -
  let ?xs = "map score (snd r)"
  from assms have pos: "sum_list ?xs > 0" by (simp add: possible_fibers_def)
  from sum_list_pos_has_pos [OF pos] obtain x where x: "x \<in> set ?xs" "x > 0" by blast
  then have ne: "?xs \<noteq> []" by auto
  from np_argmax_Max [OF ne] obtain k where k: "np_argmax ?xs = Inr k" "k < length ?xs"
    "?xs ! k = Max (set ?xs)" by blast
  have "Max (set ?xs) \<ge> x" using x by (intro Max_ge) auto
  with x have "Max (set ?xs) > 0" by linarith
  with k(3) have "?xs ! k > 0" by simp
  moreover from k(2) have "?xs ! k = score (snd r ! k)" by simp
  ultimately have "score (snd r ! k) > 0" by simp
  with k(1,2) show ?thesis by (simp add: bundle_choice_def)
qed

lemma cell_of_score_pos:
  "score (cell_of p r) > 0 \<Longrightarrow> \<exists>m0 m1. r = Some (m0, m1) \<and> cell_of p r = (p, m0, m1)"
  by (auto simp: cell_of_def score_def split: option.splits)

lemma fiber_group_member:
  assumes seg: "segment_sls crosses tol thr fp bundle_dict streamlines = Inr groups"
    and b: "b < length bundle_dict" and s: "s \<in> set (groups ! b)"
  shows "\<exists>si m0 m1. si < length streamlines
           \<and> segment_pair crosses tol thr (bundle_dict ! b) (fp b si) si (streamlines ! si)
               = Inr (Some (m0, m1))
           \<and> s = (if m0 > m1 then rev (streamlines ! si) else streamlines ! si)"
proof -
  from seg obtain cols where tab: "segment_table crosses tol thr fp bundle_dict streamlines = Inr cols"
    and groups: "groups = map (fiber_group (filter possible_fibers (table_rows streamlines cols)))
                      [0..<length bundle_dict]"
    by (auto simp: segment_sls_def split: sum.splits if_splits)
  from groups b have "groups ! b = fiber_group (filter possible_fibers (table_rows streamlines cols)) b"
    by simp
  with s obtain r where r: "r \<in> set (table_rows streamlines cols)" and poss: "possible_fibers r"
    and choice: "bundle_choice r = b" and sr: "s = orient b r"
    by (auto simp: fiber_group_def)
  from r obtain si where si: "si < length streamlines" and fr: "fst r = streamlines ! si"
    and cr: "snd r = map (\<lambda>col. col ! si) cols"
    by (auto simp: table_rows_def)
  from segment_table_cells(1) [OF tab] have len: "length cols = length bundle_dict" .
  from segment_table_cells(3) [OF tab b si] obtain res where
    res: "segment_pair crosses tol thr (bundle_dict ! b) (fp b si) si (streamlines ! si) = Inr res"
    and cell: "cols ! b ! si = cell_of (fp b si) res" by blast
  have cb: "snd r ! b = cell_of (fp b si) res" using cr b len cell by simp
  from chosen_score_positive [OF poss] choice cb have "score (cell_of (fp b si) res) > 0" by simp
  from cell_of_score_pos [OF this] obtain m0 m1 where
    some: "res = Some (m0, m1)" and c: "cell_of (fp b si) res = (fp b si, m0, m1)" by blast
  have "s = (if m0 > m1 then rev (streamlines ! si) else streamlines ! si)"
    using sr cb c fr by (simp add: orient_def)
  with si res some show ?thesis by blast
qed


lemma for_enumerate_Inl0:
  "for_enumerate f 0 xs = Inl e \<Longrightarrow> \<exists>i<length xs. f i (xs ! i) = Inl e"
  using for_enumerate_Inl [of f 0 xs e] by auto





subsection \<open>The crossing rule\<close>

text \<open>
  C1, as stated, fails: a streamline that does not cross the midline passes the crossing
  check of a bundle whose rule is \<open>True\<close>. The check only looks at streamlines that do
  cross. Here the streamline is classified as not crossing, the rule says it must cross,
  and the body of the loop still writes its cell; the streamline ends in the fiber group.
\<close>

theorem crossing_rule_counterexample:
  "[False] ! 0 = False
   \<and> segment_pair (Some [False]) 1 0 (example_bundle (Some True) [[(0, 0, 0)], [(1, 0, 0)]])
        1 0 [(0, 0, 0), (1, 0, 0)]
       = Inr (Some (0, 1))
   \<and> segment_sls (Some [False]) 1 0 (\<lambda>b i. 1)
        [example_bundle (Some True) [[(0, 0, 0)], [(1, 0, 0)]]] [[(0, 0, 0), (1, 0, 0)]]
       = Inr [[[(0, 0, 0), (1, 0, 0)]]]"
  by (simp add: segment_eval)

text \<open>
  C1, amended: for every streamline and every bundle whose rule is \<open>False\<close>
  (\<^verbatim>\<open>cross_midline\<close> false: the bundle must not cross), a streamline that is classified
  as crossing the midline is rejected for that bundle: the body of the loop writes
  nothing for the pair and raises nothing.
\<close>

theorem crossing_streamline_rejected:
  assumes "crosses = Some cs" and "sl_idx < length cs" and "cs ! sl_idx"
    and "cross_midline b = Some False"
  shows "segment_pair crosses tol prob_threshold b p sl_idx sl = Inr None"
  using assms by (simp add: segment_pair_def crossing_gate_def)

theorem crossing_streamline_rejected_witness:
  "(0::nat) < length [True] \<and> [True] ! 0
   \<and> cross_midline (example_bundle (Some False) [[(0, 0, 0)], [(1, 0, 0)]]) = Some False
   \<and> segment_pair (Some [True]) 1 0 (example_bundle (Some False) [[(0, 0, 0)], [(1, 0, 0)]])
        1 0 [(0, 0, 0), (1, 0, 0)]
       = Inr None"
proof -
  have h1: "Some [True] = Some [True]" by simp
  have h2: "(0::nat) < length [True]" by simp
  have h3: "[True] ! 0" by simp
  have h4: "cross_midline (example_bundle (Some False) [[(0, 0, 0)], [(1, 0, 0)]]) = Some False"
    by simp
  from crossing_streamline_rejected [OF h1 h2 h3 h4] h2 h3 h4 show ?thesis by blast
qed

subsection \<open>The cleaner below the minimum size\<close>

text \<open>
  C9: for every input with fewer than \<^verbatim>\<open>min_sl\<close> streamlines, \<^verbatim>\<open>clean_fiber_group\<close>
  returns its input unchanged, whatever the resampling, the statistic and the other
  parameters are: nothing is resampled, no distance is computed, nothing is removed.
\<close>

theorem clean_fiber_group_below_min_sl:
  assumes "length streamlines < min_sl"
  shows "clean_fiber_group resample streamlines n_points clean_rounds clean_threshold min_sl stat
         = Inr streamlines"
  using assms by (simp add: clean_fiber_group_def)

theorem clean_fiber_group_below_min_sl_witness:
  "length (replicate 10 (diagonal 0)) < 20
   \<and> clean_fiber_group (\<lambda>s n. []) (replicate 10 (diagonal 0)) 100 5 3 20 np_mean
       = Inr (replicate 10 (diagonal 0))"
proof -
  have h: "length (replicate 10 (diagonal 0)) < 20" by simp
  from clean_fiber_group_below_min_sl [OF h] h show ?thesis by blast
qed


subsection \<open>The probability gate\<close>

text \<open>
  C8: the gate is \<^verbatim>\<open>fiber_probabilities[sl_idx] > prob_threshold\<close>. A streamline whose
  probability is less than or equal to the threshold is rejected for the bundle (the body
  of the loop writes nothing), and a bundle for which no streamline exceeds the threshold
  gets an empty fiber group whenever \<^verbatim>\<open>segment_sls\<close> returns; in particular a bundle
  whose probabilities are all zero, with threshold zero.
\<close>

theorem probability_gate_strict:
  "(p \<le> prob_threshold \<longrightarrow> segment_pair crosses tol prob_threshold b p sl_idx sl = Inr None)
   \<and> (segment_sls crosses tol prob_threshold fp bundle_dict streamlines = Inr groups
        \<and> b_idx < length bundle_dict
        \<and> (\<forall>si<length streamlines. fp b_idx si \<le> prob_threshold)
      \<longrightarrow> groups ! b_idx = [])"
proof (intro conjI impI)
  assume "p \<le> prob_threshold"
  then show "segment_pair crosses tol prob_threshold b p sl_idx sl = Inr None"
    by (simp add: segment_pair_def)
next
  assume a: "segment_sls crosses tol prob_threshold fp bundle_dict streamlines = Inr groups
        \<and> b_idx < length bundle_dict
        \<and> (\<forall>si<length streamlines. fp b_idx si \<le> prob_threshold)"
  show "groups ! b_idx = []"
  proof (rule ccontr)
    assume "groups ! b_idx \<noteq> []"
    then obtain s where "s \<in> set (groups ! b_idx)" by (cases "groups ! b_idx") auto
    with a fiber_group_member [of crosses tol prob_threshold fp bundle_dict streamlines groups b_idx s]
    obtain si m0 m1 where si: "si < length streamlines"
      and "segment_pair crosses tol prob_threshold (bundle_dict ! b_idx) (fp b_idx si) si
             (streamlines ! si) = Inr (Some (m0, m1))" by blast
    moreover from a si have "fp b_idx si \<le> prob_threshold" by simp
    ultimately show False by (simp add: segment_pair_def)
  qed
qed

theorem probability_gate_strict_witness:
  "(0::real) \<le> 0
   \<and> segment_pair None 1 0 (example_bundle None [[(0, 0, 0)], [(1, 0, 0)]]) 0 0
        [(0, 0, 0), (1, 0, 0)]
       = Inr None
   \<and> segment_sls None 1 0 (\<lambda>b i. if b = 0 then 0 else 1)
        [example_bundle None [[(0, 0, 0)], [(1, 0, 0)]],
         example_bundle None [[(0, 0, 0)], [(1, 0, 0)]]]
        [[(0, 0, 0), (1, 0, 0)]]
       = Inr [[], [[(0, 0, 0), (1, 0, 0)]]]
   \<and> [[], [[(0, 0, 0), (1, 0, 0)]]] ! 0 = ([] :: streamline list)"
  using probability_gate_strict [where p = 0 and prob_threshold = 0 and crosses = None
      and tol = 1 and b = "example_bundle None [[(0, 0, 0)], [(1, 0, 0)]]" and sl_idx = 0
      and sl = "[(0, 0, 0), (1, 0, 0)]" and fp = "\<lambda>b i. if b = 0 then 0 else 1"
      and bundle_dict = "[example_bundle None [[(0, 0, 0)], [(1, 0, 0)]],
                          example_bundle None [[(0, 0, 0)], [(1, 0, 0)]]]"
      and streamlines = "[[(0, 0, 0), (1, 0, 0)]]"
      and groups = "[[], [[(0, 0, 0), (1, 0, 0)]]]" and b_idx = 0]
  by (simp add: segment_eval)

subsection \<open>Classification without the midline classification\<close>




subsection \<open>Empty ROI lists\<close>

text \<open>
  C3, as stated, fails for the inclusion list: the helper accepts the empty list, but
  \<^verbatim>\<open>segment_sls\<close> then reads \<^verbatim>\<open>dist[0]\<close> of the empty list of distance matrices, and
  classifying the streamline raises \<^verbatim>\<open>IndexError\<close>.
\<close>

theorem empty_inclusion_list_counterexample:
  "include_rois (example_bundle None []) = []
   \<and> segment_pair None 1 0 (example_bundle None []) 1 0 [(0, 0, 0), (1, 0, 0)]
       = Inl IndexError
   \<and> segment_sls None 1 0 (\<lambda>b i. 1) [example_bundle None []] [[(0, 0, 0), (1, 0, 0)]]
       = Inl IndexError"
  by (simp add: segment_eval)

text \<open>
  C3, amended: both helper tests treat an empty list as vacuously satisfied and raise
  nothing: \<^verbatim>\<open>_check_sl_with_exclusion\<close> returns \<open>True\<close> and
  \<^verbatim>\<open>_check_sl_with_inclusion\<close> returns \<open>(True, [])\<close>. With an empty exclusion list a
  streamline that the body of the loop rejects was rejected by the probability gate, the
  crossing check or the inclusion test, never by the exclusion test. With an empty
  inclusion list classification does not complete: a streamline that passes the
  probability gate, the crossing check and the exclusion test raises \<^verbatim>\<open>IndexError\<close>,
  because the body reads the distance matrices of the first two inclusion ROIs.
\<close>

theorem empty_roi_lists:
  "check_sl_with_exclusion sl [] tol = Inr True
   \<and> check_sl_with_inclusion sl [] tol = Inr (True, [])
   \<and> (exclude_rois b = [] \<and> segment_pair crosses tol prob_threshold b p sl_idx sl = Inr None
        \<longrightarrow> p \<le> prob_threshold \<or> crossing_gate crosses (cross_midline b) sl_idx = Inr False
            \<or> (\<exists>d. check_sl_with_inclusion sl (include_rois b) tol = Inr (False, d)))
   \<and> (include_rois b = [] \<and> p > prob_threshold
        \<and> crossing_gate crosses (cross_midline b) sl_idx = Inr True
        \<and> check_sl_with_exclusion sl (exclude_rois b) tol = Inr True
        \<longrightarrow> segment_pair crosses tol prob_threshold b p sl_idx sl = Inl IndexError)"
  by (auto simp: segment_pair_def check_sl_with_inclusion_def getitem_def
      split: if_splits sum.splits prod.splits)

theorem empty_roi_lists_witness:
  "check_sl_with_exclusion [(0, 0, 0), (1, 0, 0)] [] 1 = Inr True
   \<and> check_sl_with_inclusion [(0, 0, 0), (1, 0, 0)] [] 1 = Inr (True, [])
   \<and> segment_pair None 1 0 (example_bundle None [[(5, 5, 5)], [(1, 0, 0)]]) 1 0
        [(0, 0, 0), (1, 0, 0)]
       = Inr None
   \<and> check_sl_with_inclusion [(0, 0, 0), (1, 0, 0)]
        (include_rois (example_bundle None [[(5, 5, 5)], [(1, 0, 0)]])) 1
       = Inr (False, [])
   \<and> segment_pair None 1 0 (example_bundle None []) 1 0 [(0, 0, 0), (1, 0, 0)]
       = Inl IndexError"
  using empty_roi_lists [where sl = "[(0, 0, 0), (1, 0, 0)]" and tol = 1
      and b = "example_bundle None [[(5, 5, 5)], [(1, 0, 0)]]"
      and crosses = None and prob_threshold = 0 and p = 1 and sl_idx = 0]
    empty_roi_lists [where sl = "[(0, 0, 0), (1, 0, 0)]" and tol = 1
      and b = "example_bundle None []"
      and crosses = None and prob_threshold = 0 and p = 1 and sl_idx = 0]
  by (simp add: pair_eval)


subsection \<open>Orientation\<close>















subsection \<open>The default probability map\<close>

lemma rules_loop_roi:
  "rules_loop warp_roi rois k rs (roi, inc, exc) = Inr (roi', inc', exc') \<Longrightarrow> rs \<noteq> [] \<Longrightarrow>
     k + length rs \<le> length rois \<and> roi' = Some (rois ! (k + length rs - 1))"
proof (induction rs arbitrary: k roi inc exc)
  case Nil
  then show ?case by simp
next
  case (Cons rule rest)
  from Cons.prems(1) have k: "k < length rois"
    and step: "rules_loop warp_roi rois (Suc k) rest
            (Some (rois ! k), if rule then inc @ [warp_roi (rois ! k)] else inc,
                     if rule then exc else exc @ [warp_roi (rois ! k)]) = Inr (roi', inc', exc')"
    by (auto simp: getitem_def split: if_splits)
  show ?case
  proof (cases "rest = []")
    case True
    with step k show ?thesis by simp
  next
    case False
    from Cons.IH [OF step False] show ?thesis by simp
  qed
qed

lemma create_prob_loop_nth:
  "create_prob_loop warp_roi warp_prob roi bs = Inr res \<Longrightarrow> i < length bs \<Longrightarrow>
     \<exists>roi0 roi1 inc exc.
        create_prob_bundle warp_roi warp_prob roi0 (bs ! i) = Inr (roi1, inc, exc, warped_prob_map (res ! i))"
proof (induction bs arbitrary: roi res i)
  case Nil
  then show ?case by simp
next
  case (Cons b bs)
  from Cons.prems(1) obtain roi' inc exc wpm rest where
    first: "create_prob_bundle warp_roi warp_prob roi b = Inr (roi', inc, exc, wpm)"
    and tail: "create_prob_loop warp_roi warp_prob roi' bs = Inr rest"
    and res: "res = (inc, exc, wpm) # rest"
    by (auto split: sum.splits prod.splits)
  show ?case
  proof (cases i)
    case 0
    with first res show ?thesis by (auto simp: warped_prob_map_def)
  next
    case (Suc j)
    with Cons.prems(2) have "j < length bs" by simp
    from Cons.IH [OF tail this] Suc res show ?thesis by simp
  qed
qed

text \<open>
  C7, as stated, fails when the ROIs of a bundle differ in shape: the default is built
  from the variable \<^verbatim>\<open>roi\<close> as the loop over the rules leaves it, which is the last ROI
  and not the first. Here the first ROI has shape \<open>(1, 1, 1)\<close>, the second
  \<open>(1, 1, 2)\<close>, the mapping is the identity, and the map the bundle receives has shape
  \<open>(1, 1, 2)\<close>.
\<close>

theorem default_prob_map_counterexample:
  "prob_map (example_spec [[1, 1, 1], [1, 1, 2]] [True, True]) = None
   \<and> create_prob (\<lambda>v. []) (\<lambda>v. v) [example_spec [[1, 1, 1], [1, 1, 2]] [True, True]]
       = Inr [([[], []], [], np_ones [1, 1, 2])]
   \<and> shape (np_ones [1, 1, 2]) = [1, 1, 2]
   \<and> shape (ROIs (example_spec [[1, 1, 1], [1, 1, 2]] [True, True]) ! 0) = [1, 1, 1]
   \<and> [1, 1, 2] \<noteq> [1, 1, 1 :: nat]"
  by (simp add: create_prob_def create_prob_bundle_def getitem_def np_ones_def)

text \<open>
  C7, amended: for every bundle that has at least one rule and lacks a probability map,
  the classifier substitutes an all-ones volume whose shape equals the shape of the last
  ROI that has a rule, \<^verbatim>\<open>ROIs[len(rules) - 1]\<close> (and warps it like a given map); this is
  the shape of the first ROI whenever all ROIs of the bundle have one shape.
\<close>

theorem default_prob_map:
  assumes "create_prob warp_roi warp_prob bundle_dict = Inr res"
    and "i < length bundle_dict"
    and "prob_map (bundle_dict ! i) = None"
    and "rules (bundle_dict ! i) \<noteq> []"
  shows "length (rules (bundle_dict ! i)) \<le> length (ROIs (bundle_dict ! i))
    \<and> warped_prob_map (res ! i)
        = warp_prob (np_ones (shape (ROIs (bundle_dict ! i) ! (length (rules (bundle_dict ! i)) - 1))))
    \<and> ((\<forall>r\<in>set (ROIs (bundle_dict ! i)). shape r = shape (ROIs (bundle_dict ! i) ! 0))
        \<longrightarrow> warped_prob_map (res ! i) = warp_prob (np_ones (shape (ROIs (bundle_dict ! i) ! 0))))"
proof -
  let ?b = "bundle_dict ! i"
  from create_prob_loop_nth [OF assms(1) [unfolded create_prob_def] assms(2)]
  obtain roi0 roi1 inc exc where
    cb: "create_prob_bundle warp_roi warp_prob roi0 ?b = Inr (roi1, inc, exc, warped_prob_map (res ! i))"
    by blast
  then obtain r where
    loop: "rules_loop warp_roi (ROIs ?b) 0 (rules ?b) (roi0, [], []) = Inr (Some r, inc, exc)"
    and w: "warped_prob_map (res ! i) = warp_prob (np_ones (shape r))"
    using assms(3) by (auto simp: create_prob_bundle_def split: sum.splits prod.splits option.splits)
  from rules_loop_roi [OF loop assms(4)]
  have len: "length (rules ?b) \<le> length (ROIs ?b)"
    and r: "r = ROIs ?b ! (length (rules ?b) - 1)" by auto
  from len assms(4) have "ROIs ?b ! (length (rules ?b) - 1) \<in> set (ROIs ?b)"
    by (intro nth_mem) (cases "rules ?b", auto)
  with len r w show ?thesis by auto
qed

theorem default_prob_map_witness:
  "create_prob (\<lambda>v. []) (\<lambda>v. v) [example_spec [[1, 1, 2], [1, 1, 2]] [True, False]]
    = Inr [([[]], [[]], np_ones [1, 1, 2])]
   \<and> length (rules (example_spec [[1, 1, 2], [1, 1, 2]] [True, False]))
       \<le> length (ROIs (example_spec [[1, 1, 2], [1, 1, 2]] [True, False]))
   \<and> warped_prob_map ([[]], [[]], np_ones [1, 1, 2])
       = np_ones (shape (ROIs (example_spec [[1, 1, 2], [1, 1, 2]] [True, False]) ! 1))
   \<and> warped_prob_map ([[]], [[]], np_ones [1, 1, 2])
       = np_ones (shape (ROIs (example_spec [[1, 1, 2], [1, 1, 2]] [True, False]) ! 0))"
proof -
  let ?b = "example_spec [[1, 1, 2], [1, 1, 2]] [True, False]"
  have h1: "create_prob (\<lambda>v. []) (\<lambda>v. v) [?b] = Inr [([[]], [[]], np_ones [1, 1, 2])]"
    by (simp add: create_prob_def create_prob_bundle_def getitem_def np_ones_def)
  have h2: "(0::nat) < length [?b]" by simp
  have h3: "prob_map ([?b] ! 0) = None" by simp
  have h4: "rules ([?b] ! 0) \<noteq> []" by simp
  from default_prob_map [OF h1 h2 h3 h4] h1 show ?thesis by simp
qed


subsection \<open>Weights\<close>

lemma positive_finite_list:
  "\<forall>x\<in>set xs. positive_finite x \<Longrightarrow> \<exists>rs. xs = map Fin rs \<and> (\<forall>r\<in>set rs. r > 0)"
proof (induction xs)
  case Nil
  then show ?case by simp
next
  case (Cons x xs)
  then obtain rs where rs: "xs = map Fin rs" "\<forall>r\<in>set rs. r > 0" by auto
  from Cons.prems obtain r where r: "x = Fin r" "r > 0" by (cases x) auto
  with rs have "x # xs = map Fin (r # rs) \<and> (\<forall>a\<in>set (r # rs). a > 0)" by simp
  then show ?case by (intro exI [of _ "r # rs"])
qed

lemma fold_np_add_Fin:
  "fold (\<lambda>x acc. np_add acc x) (map Fin rs) (Fin a) = Fin (a + sum_list rs)"
  by (induction rs arbitrary: a) (simp_all add: add.assoc)

lemma np_sum_Fin: "np_sum (map Fin rs) = Fin (sum_list rs)"
  by (simp add: np_sum_def fold_np_add_Fin)

lemma sum_list_positive:
  fixes rs :: "real list"
  shows "rs \<noteq> [] \<Longrightarrow> \<forall>r\<in>set rs. r > 0 \<Longrightarrow> sum_list rs > 0"
proof (induction rs)
  case Nil
  then show ?case by simp
next
  case (Cons r rs)
  then show ?case by (cases "rs = []") (auto intro: add_pos_pos)
qed

lemma sum_list_divide:
  fixes rs :: "real list"
  shows "sum_list (map (\<lambda>r. r / c) rs) = sum_list rs / c"
  by (induction rs) (simp_all add: add_divide_distrib)

lemma normalised_sum:
  assumes ne: "xs \<noteq> []" and pos: "\<forall>x\<in>set xs. positive_finite x"
  shows "np_sum (map (\<lambda>x. np_divide x (np_sum xs)) xs) = Fin 1"
proof -
  from positive_finite_list [OF pos] obtain rs where rs: "xs = map Fin rs" "\<forall>r\<in>set rs. r > 0"
    by blast
  with ne have "rs \<noteq> []" by auto
  from sum_list_positive [OF this rs(2)] have S: "sum_list rs > 0" .
  have "map (\<lambda>x. np_divide x (np_sum xs)) xs = map Fin (map (\<lambda>r. r / sum_list rs) rs)"
    using S by (simp add: rs(1) np_sum_Fin)
  then have "np_sum (map (\<lambda>x. np_divide x (np_sum xs)) xs) = Fin (sum_list (map (\<lambda>r. r / sum_list rs) rs))"
    by (simp only: np_sum_Fin)
  also have "sum_list (map (\<lambda>r. r / sum_list rs) rs) = sum_list rs / sum_list rs"
    by (rule sum_list_divide)
  also have "\<dots> = 1" using S by simp
  finally show ?thesis .
qed


lemma positive_finite_reciprocal: "positive_finite x \<Longrightarrow> positive_finite (np_reciprocal x)"
  by (cases x) auto

lemma column_normalised:
  assumes rows: "\<forall>row\<in>set w1. length row = n" and cs: "length col_sums = n" and k: "k < n"
  shows "column (map (\<lambda>row. map2 np_divide row col_sums) w1) k
         = map (\<lambda>x. np_divide x (col_sums ! k)) (column w1 k)"
proof -
  have "(map2 np_divide row col_sums) ! k = np_divide (row ! k) (col_sums ! k)"
    if "row \<in> set w1" for row
    using that rows cs k by simp
  then show ?thesis by (simp add: column_def)
qed

text \<open>
  C5, as stated, fails on two kinds of bundle. In the first the two streamlines have the
  same x coordinate at a node: the variance of x is zero, the triangular covariance is
  singular and \<^verbatim>\<open>np.linalg.inv\<close> raises. In the second the middle one of three
  streamlines lies on the mean at every node: its distance is zero, its inverse is
  infinite, and the normalised weights of the node are \<open>0\<close>, \<open>nan\<close>, \<open>0\<close>, whose sum
  is not \<open>1\<close>.
\<close>

theorem gaussian_weights_counterexample:
  "2 \<le> length ([[(0, 0, 0), (0, 1, 1)], [(0, 1, 1), (0, 2, 2)]] :: point list list)
   \<and> gaussian_weights [[(0, 0, 0), (0, 1, 1)], [(0, 1, 1), (0, 2, 2)]] False np_mean
       = Inl LinAlgError
   \<and> 2 \<le> length (map diagonal [- 1, 0, 1])
   \<and> gaussian_weights (map diagonal [- 1, 0, 1]) False np_mean
       = Inr (W2 [[Fin 0, Fin 0], [NaN, NaN], [Fin 0, Fin 0]])
   \<and> np_sum (column [[Fin 0, Fin 0], [NaN, NaN], [Fin 0, Fin 0]] 0) = NaN"
  by (simp add: gw_eval)

lemma positive_finite_Fin: "positive_finite x \<Longrightarrow> x = Fin (fin_value x) \<and> fin_value x > 0"
  by (cases x) auto

lemma reciprocal_column:
  assumes len: "\<forall>row\<in>set d. k < length row"
    and pos: "\<forall>row\<in>set d. positive_finite (row ! k)"
  shows "column (map (map np_reciprocal) d) k = map Fin (map (\<lambda>row. 1 / fin_value (row ! k)) d)"
proof -
  have "np_reciprocal (row ! k) = Fin (1 / fin_value (row ! k))" if "row \<in> set d" for row
  proof -
    from pos that have "positive_finite (row ! k)" by blast
    from positive_finite_Fin [OF this] obtain r where "row ! k = Fin r" "r > 0" "fin_value (row ! k) = r"
      by auto
    then show ?thesis by simp
  qed
  with len show ?thesis by (simp add: column_def)
qed

lemma sqrt_49_25: "sqrt (49 / 25) = 7 / 5"
  using real_sqrt_abs [of "7 / 5"] by (simp add: power2_eq_square)

lemma sqrt_1_25: "sqrt (1 / 25) = 1 / 5"
  using real_sqrt_abs [of "1 / 5"] by (simp add: power2_eq_square)

text \<open>
  C5, amended: for every bundle of at least 2 streamlines whose Mahalanobis distances
  exist and are all finite and positive (the call with \<^verbatim>\<open>return_mahalnobis=True\<close>
  returns, so every node's triangular covariance is invertible, and no streamline lies at
  distance zero from the statistic of a node), \<^verbatim>\<open>gaussian_weights\<close> in non-Mahalanobis
  mode returns an array with one row per streamline and one column per node. Each of its
  entries is the inverse of the Mahalanobis distance of that streamline at that node (the
  distance of the node from the statistic of the node under the inverse of the node's
  triangular covariance), divided by the sum of these inverses over all streamlines at
  the node; and at every node the weights sum to 1 across streamlines. Arithmetic is exact.
\<close>

theorem gaussian_weights_sum_to_one:
  assumes two: "2 \<le> length bndl"
    and mah: "gaussian_weights bndl True stat = Inr (W2 d)"
    and pos: "\<forall>row\<in>set d. \<forall>x\<in>set row. positive_finite x"
  shows "\<exists>wts. gaussian_weights bndl False stat = Inr (W2 wts)
           \<and> length wts = length bndl
           \<and> (\<forall>row\<in>set wts. length row = n_nodes bndl)
           \<and> (\<forall>fn<length bndl. \<forall>node<n_nodes bndl.
                 \<exists>VI. linalg_inv (node_cov (column bndl node)) = Inr VI
                    \<and> d ! fn ! node
                        = mahalanobis (bndl ! fn ! node) (stat (column bndl node)) VI)
           \<and> (\<forall>fn<length bndl. \<forall>node<n_nodes bndl.
                 wts ! fn ! node
                 = Fin ((1 / fin_value (d ! fn ! node))
                        / (\<Sum>row\<leftarrow>d. 1 / fin_value (row ! node))))
           \<and> (\<forall>node<n_nodes bndl. np_sum (column wts node) = Fin 1)"
proof -
  let ?N = "n_nodes bndl"
  from two have not1: "length bndl \<noteq> 1" by simp
  from mah not1 obtain cols where
    cols: "for_enumerate (\<lambda>_ node. node_distances stat (column bndl node)) 0 [0..<?N] = Inr cols"
    and d: "d = map (column cols) [0..<length bndl]"
    by (auto simp: gaussian_weights_def Let_def split: sum.splits)
  from for_enumerate_Inr0 [OF cols] have lc: "length cols = ?N" by simp
  define w1 where "w1 = map (map np_reciprocal) d"
  define col_sums where "col_sums = map (\<lambda>node. np_sum (column w1 node)) [0..<?N]"
  define wts where "wts = map (\<lambda>row. map2 np_divide row col_sums) w1"
  have res: "gaussian_weights bndl False stat = Inr (W2 wts)"
    using not1 cols d by (simp add: gaussian_weights_def Let_def w1_def col_sums_def wts_def)
  have ld: "length d = length bndl" by (simp add: d)
  have rows_d: "\<forall>row\<in>set d. length row = ?N" by (auto simp: d column_def lc)
  have rows_w1: "\<forall>row\<in>set w1. length row = ?N" using rows_d by (auto simp: w1_def)
  have pos_w1: "\<forall>row\<in>set w1. \<forall>x\<in>set row. positive_finite x"
    using pos by (auto simp: w1_def intro: positive_finite_reciprocal)
  have lcs: "length col_sums = ?N" by (simp add: col_sums_def)
  have lw: "length wts = length bndl" by (simp add: wts_def w1_def ld)
  have rows_wts: "\<forall>row\<in>set wts. length row = ?N"
    using rows_w1 lcs by (auto simp: wts_def)
  have w1_ne: "w1 \<noteq> []" using two ld by (auto simp: w1_def)
  have d_ne: "d \<noteq> []" using two ld by auto
  have pos_at: "\<forall>row\<in>set d. positive_finite (row ! node)" if "node < ?N" for node
  proof
    fix row assume row: "row \<in> set d"
    with rows_d that have "row ! node \<in> set row" by (intro nth_mem) simp
    with pos row show "positive_finite (row ! node)" by blast
  qed
  have col_w1: "column w1 node = map Fin (map (\<lambda>row. 1 / fin_value (row ! node)) d)"
    if "node < ?N" for node
    unfolding w1_def using reciprocal_column [OF _ pos_at [OF that]] rows_d that by simp
  have recips_pos: "(\<Sum>row\<leftarrow>d. 1 / fin_value (row ! node)) > 0" if "node < ?N" for node
  proof (rule sum_list_positive)
    show "map (\<lambda>row. 1 / fin_value (row ! node)) d \<noteq> []" using d_ne by simp
    show "\<forall>r\<in>set (map (\<lambda>row. 1 / fin_value (row ! node)) d). 0 < r"
      using pos_at [OF that] positive_finite_Fin by auto
  qed
  have cs: "col_sums ! node = Fin (\<Sum>row\<leftarrow>d. 1 / fin_value (row ! node))"
    if "node < ?N" for node
  proof -
    have "col_sums ! node = np_sum (column w1 node)" using that by (simp add: col_sums_def)
    also have "\<dots> = np_sum (map Fin (map (\<lambda>row. 1 / fin_value (row ! node)) d))"
      by (simp only: col_w1 [OF that])
    also have "\<dots> = Fin (\<Sum>row\<leftarrow>d. 1 / fin_value (row ! node))" by (rule np_sum_Fin)
    finally show ?thesis .
  qed
  have entry: "wts ! fn ! node
       = Fin ((1 / fin_value (d ! fn ! node)) / (\<Sum>row\<leftarrow>d. 1 / fin_value (row ! node)))"
    if fn: "fn < length bndl" and node: "node < ?N" for fn node
  proof -
    from fn ld have in_d: "d ! fn \<in> set d" by simp
    with rows_d have lrow: "length (d ! fn) = ?N" by blast
    from pos_at [OF node] in_d have "positive_finite (d ! fn ! node)" by blast
    from positive_finite_Fin [OF this]
    have r: "d ! fn ! node = Fin (fin_value (d ! fn ! node))" "fin_value (d ! fn ! node) > 0"
      by auto
    have "wts ! fn ! node = np_divide (np_reciprocal (d ! fn ! node)) (col_sums ! node)"
      using fn ld lrow lcs node by (simp add: wts_def w1_def)
    also have "np_reciprocal (d ! fn ! node) = Fin (1 / fin_value (d ! fn ! node))"
      using r by (metis np_reciprocal.simps(1) less_irrefl)
    finally show ?thesis using cs [OF node] recips_pos [OF node] by simp
  qed
  have dist: "\<exists>VI. linalg_inv (node_cov (column bndl node)) = Inr VI
        \<and> d ! fn ! node = mahalanobis (bndl ! fn ! node) (stat (column bndl node)) VI"
    if fn: "fn < length bndl" and node: "node < ?N" for fn node
  proof -
    from for_enumerate_Inr0 [OF cols] node
    have nd: "node_distances stat (column bndl node) = Inr (cols ! node)" by simp
    have lcol: "length (column bndl node) = length bndl" by (simp add: column_def)
    from for_enumerate_Inr0 [OF nd [unfolded node_distances_def]] fn lcol
    have "(case linalg_inv (node_cov (column bndl node)) of
             Inl e \<Rightarrow> Inl e
           | Inr VI \<Rightarrow> Inr (mahalanobis (column bndl node ! fn) (stat (column bndl node)) VI))
          = Inr (cols ! node ! fn)" by simp
    then obtain VI where vi: "linalg_inv (node_cov (column bndl node)) = Inr VI"
      and m: "cols ! node ! fn = mahalanobis (column bndl node ! fn) (stat (column bndl node)) VI"
      by (auto split: sum.splits)
    have "d ! fn ! node = cols ! node ! fn" using fn node lc by (simp add: d column_def)
    moreover have "column bndl node ! fn = bndl ! fn ! node" using fn by (simp add: column_def)
    ultimately show ?thesis using vi m by simp
  qed
  have sums: "np_sum (column wts node) = Fin 1" if node: "node < ?N" for node
  proof -
    let ?xs = "column w1 node"
    have ne: "?xs \<noteq> []" using w1_ne by (simp add: column_def)
    have p: "\<forall>x\<in>set ?xs. positive_finite x"
    proof
      fix x assume "x \<in> set ?xs"
      then obtain row where row: "row \<in> set w1" and x: "x = row ! node"
        by (auto simp: column_def)
      from row rows_w1 node have "row ! node \<in> set row" by (intro nth_mem) simp
      with pos_w1 row x show "positive_finite x" by blast
    qed
    have cs': "col_sums ! node = np_sum ?xs" using node by (simp add: col_sums_def)
    have "column wts node = map (\<lambda>x. np_divide x (np_sum ?xs)) ?xs"
      unfolding wts_def column_normalised [OF rows_w1 lcs node] cs' ..
    with normalised_sum [OF ne p] show ?thesis by simp
  qed
  from res lw rows_wts dist entry sums show ?thesis by blast
qed

theorem gaussian_weights_sum_to_one_witness:
  "gaussian_weights (map diagonal [7, 1, - 1, - 7]) True np_mean
    = Inr (W2 [[Fin (7 / 5), Fin (7 / 5)], [Fin (1 / 5), Fin (1 / 5)],
                  [Fin (1 / 5), Fin (1 / 5)], [Fin (7 / 5), Fin (7 / 5)]])
   \<and> gaussian_weights (map diagonal [7, 1, - 1, - 7]) False np_mean
       = Inr (W2 [[Fin (1 / 16), Fin (1 / 16)], [Fin (7 / 16), Fin (7 / 16)],
                  [Fin (7 / 16), Fin (7 / 16)], [Fin (1 / 16), Fin (1 / 16)]])
   \<and> Fin (1 / 16) = Fin ((1 / (7 / 5)) / (1 / (7 / 5) + 1 / (1 / 5) + 1 / (1 / 5) + 1 / (7 / 5)))
   \<and> Fin (7 / 16) = Fin ((1 / (1 / 5)) / (1 / (7 / 5) + 1 / (1 / 5) + 1 / (1 / 5) + 1 / (7 / 5)))
   \<and> np_sum [Fin (1 / 16), Fin (7 / 16), Fin (7 / 16), Fin (1 / 16)] = Fin 1"
proof -
  let ?d = "[[Fin (7 / 5), Fin (7 / 5)],
      [Fin (1 / 5), Fin (1 / 5)],
      [Fin (1 / 5), Fin (1 / 5)],
      [Fin (7 / 5), Fin (7 / 5)]]"
  let ?wts = "[[Fin (1 / 16), Fin (1 / 16)],
      [Fin (7 / 16), Fin (7 / 16)],
      [Fin (7 / 16), Fin (7 / 16)],
      [Fin (1 / 16), Fin (1 / 16)]]"
  have h1: "2 \<le> length (map diagonal [7, 1, - 1, - 7])" by simp
  have h2: "gaussian_weights (map diagonal [7, 1, - 1, - 7]) True np_mean = Inr (W2 ?d)"
    by (simp add: gw_eval sqrt_49_25 sqrt_1_25)
  have h3: "\<forall>row\<in>set ?d. \<forall>x\<in>set row. positive_finite x" by simp
  have w: "gaussian_weights (map diagonal [7, 1, - 1, - 7]) False np_mean = Inr (W2 ?wts)"
    by (simp add: gw_eval sqrt_49_25 sqrt_1_25)
  from gaussian_weights_sum_to_one [OF h1 h2 h3] w
  have "(\<forall>fn<4. \<forall>node<2. ?wts ! fn ! node
           = Fin ((1 / fin_value (?d ! fn ! node)) / (\<Sum>row\<leftarrow>?d. 1 / fin_value (row ! node))))
        \<and> (\<forall>node<2. np_sum (column ?wts node) = Fin 1)"
    by (simp add: n_nodes_def)
  then have "?wts ! 0 ! 0 = Fin ((1 / fin_value (?d ! 0 ! 0)) / (\<Sum>row\<leftarrow>?d. 1 / fin_value (row ! 0)))"
    and "?wts ! 1 ! 0 = Fin ((1 / fin_value (?d ! 1 ! 0)) / (\<Sum>row\<leftarrow>?d. 1 / fin_value (row ! 0)))"
    and "np_sum (column ?wts 0) = Fin 1"
    by simp_all
  with h2 w show ?thesis by (simp add: column_def)
qed


subsection \<open>The rounds of the cleaner\<close>

text \<open>The inverse is an inverse; the loop has no effect when its argument has no more
  than \<^verbatim>\<open>min_sl\<close> streamlines, whatever survives; it never runs more than
  \<^verbatim>\<open>clean_rounds\<close> rounds.\<close>

lemma linalg_inv_inverse:
  assumes "linalg_inv m = Inr vi"
  shows "mat3_mul m vi = ((1, 0, 0), (0, 1, 0), (0, 0, 1))"
proof -
  obtain a b c d e f g h i where m: "m = ((a, b, c), (d, e, f), (g, h, i))"
    by (metis prod_cases3)
  let ?dt = "a * (e * i - f * h) - b * (d * i - f * g) + c * (d * h - e * g)"
  from assms m have dt: "?dt \<noteq> 0"
    and vi: "vi = (((e * i - f * h) / ?dt, (c * h - b * i) / ?dt, (b * f - c * e) / ?dt),
                   ((f * g - d * i) / ?dt, (a * i - c * g) / ?dt, (c * d - a * f) / ?dt),
                   ((d * h - e * g) / ?dt, (b * g - a * h) / ?dt, (a * e - b * d) / ?dt))"
    by (auto simp: Let_def split: if_splits)
  have r: "x / ?dt * y = x * y / ?dt" for x y by simp
  have s: "y * (x / ?dt) = y * x / ?dt" for x y by simp
  show ?thesis
    unfolding m vi mat3_mul.simps prod.inject s add_divide_distrib [symmetric]
    using dt by (auto simp: field_simps)
qed

lemma clean_loop_guard_reads_input_length:
  "n_streamlines \<le> min_sl \<Longrightarrow>
     clean_loop n_streamlines clean_rounds clean_threshold min_sl st = Inr st"
  by (subst clean_loop.simps) (simp del: clean_loop.simps)

lemma clean_loop_rounds_bounded:
  "clean_loop n_streamlines clean_rounds clean_threshold min_sl st = Inr st' \<Longrightarrow>
     rounds_elapsed st \<le> clean_rounds \<Longrightarrow> rounds_elapsed st' \<le> clean_rounds"
proof (induction n_streamlines clean_rounds clean_threshold min_sl st
    rule: clean_loop.induct)
  case (1 n_streamlines clean_rounds clean_threshold min_sl st)
  show ?case
  proof (cases "any_greater (w st) clean_threshold \<and> rounds_elapsed st < clean_rounds
         \<and> n_streamlines > min_sl")
    case False
    with "1.prems" show ?thesis
      by (subst (asm) clean_loop.simps) (auto simp del: clean_loop.simps)
  next
    case True
    from "1.prems"(1) True obtain idx' fgarray' w' where
      a: "take_idx (idx st) (idx_belong (w st) clean_threshold) = Inr idx'"
      and b: "take_idx (fgarray st) (idx_belong (w st) clean_threshold) = Inr fgarray'"
      and c: "gaussian_weights fgarray' True np_mean = Inr w'"
      and d: "clean_loop n_streamlines clean_rounds clean_threshold min_sl
                \<lparr>idx = idx', fgarray = fgarray', w = w', rounds_elapsed = rounds_elapsed st + 1\<rparr>
              = Inr st'"
      by (subst (asm) clean_loop.simps) (auto simp del: clean_loop.simps split: sum.splits)
    from True have "rounds_elapsed st + 1 \<le> clean_rounds" by simp
    with "1.IH" [OF True a b c d] show ?thesis by simp
  qed
qed

text \<open>
  C2 is contradicted by the code at this input: four streamlines, \<^verbatim>\<open>min_sl = 3\<close>,
  \<^verbatim>\<open>clean_threshold = 1\<close>, \<^verbatim>\<open>clean_rounds = 5\<close>. The first round removes the outlier and
  leaves three streamlines, which is \<^verbatim>\<open>min_sl\<close>; the loop runs a second round all the
  same and one streamline is returned. The guard \<^verbatim>\<open>len(streamlines) > min_sl\<close> of the
  loop reads the argument, which the loop never reassigns, and not the surviving subset.
\<close>

theorem clean_fiber_group_drops_below_min_sl:
  "length (map diagonal [0, 2, 4, 14]) = 4
   \<and> gaussian_weights (map diagonal [0, 2, 4, 14]) True np_mean
       = Inr (W2 [[Fin (sqrt (25 / 29)), Fin (sqrt (25 / 29))],
                  [Fin (sqrt (9 / 29)), Fin (sqrt (9 / 29))],
                  [Fin (sqrt (1 / 29)), Fin (sqrt (1 / 29))],
                  [Fin (sqrt (81 / 29)), Fin (sqrt (81 / 29))]])
   \<and> clean_loop 4 5 1 3
        \<lparr>idx = [0, 1, 2, 3], fgarray = map diagonal [0, 2, 4, 14],
         w = W2 [[Fin (sqrt (25 / 29)), Fin (sqrt (25 / 29))],
                 [Fin (sqrt (9 / 29)), Fin (sqrt (9 / 29))],
                 [Fin (sqrt (1 / 29)), Fin (sqrt (1 / 29))],
                 [Fin (sqrt (81 / 29)), Fin (sqrt (81 / 29))]],
         rounds_elapsed = 0\<rparr>
       = Inr \<lparr>idx = [1], fgarray = [diagonal 2], w = W1 [NaN], rounds_elapsed = 2\<rparr>
   \<and> clean_fiber_group (\<lambda>s n. s) (map diagonal [0, 2, 4, 14]) 2 5 1 3 np_mean
       = Inr [diagonal 2]"
  by (simp add: clean_eval)

text \<open>
  C6 is contradicted by the code at this input: four streamlines, \<^verbatim>\<open>stat = np.median\<close>,
  \<^verbatim>\<open>min_sl = 2\<close>, \<^verbatim>\<open>clean_threshold = 1\<close>. The distances before the loop use the median;
  the call of \<^verbatim>\<open>gaussian_weights\<close> inside the loop passes no \<^verbatim>\<open>stat\<close> and uses the
  mean. The code returns one streamline; with the median in every round, as the claim
  says, two streamlines remain.
\<close>

theorem clean_fiber_group_loop_uses_mean:
  "clean_fiber_group (\<lambda>s n. s) (map diagonal [0, 1, 3, 6]) 2 5 1 2 np_median
    = Inr [diagonal 1]
   \<and> clean_fiber_group_spec (\<lambda>s n. s) (map diagonal [0, 1, 3, 6]) 2 5 1 2 np_median
       = Inr [diagonal 0, diagonal 1]"
  by (simp add: clean_eval)

end
